theory Spec2Isabelle
  imports Complex_Main
begin

section \<open>The batch reactor facility of batch\_reactor.cc\<close>

text \<open>
  A shallow embedding of \<^verbatim>\<open>src/Models/BatchReactor/batch_reactor.cc\<close>.
  Every member function becomes a function from the facility's state to its new state.
  Conventions:
  \<^item> C++ \<^verbatim>\<open>double\<close> quantities are modelled as \<^typ>\<open>real\<close> (the data model calls a
    quantity a non-negative real); rounding is not modelled.
  \<^item> C++ \<^verbatim>\<open>int\<close> values (times, batch counts) are modelled as \<^typ>\<open>int\<close>; signed overflow
    is undefined behaviour in C++ and is not modelled.
  \<^item> A thrown exception is the \<open>Inl\<close> branch of a sum; a loop that need not end is a
    \<^theory_text>\<open>partial_function\<close> whose value \<open>None\<close> means that it never returns.
  \<^item> Isabelle admits no name ending in an underscore, so \<^verbatim>\<open>Refuel_\<close>, \<^verbatim>\<open>MoveBatchIn_\<close>,
    \<^verbatim>\<open>MoveBatchOut_\<close>, \<^verbatim>\<open>GetOrder_\<close> and \<^verbatim>\<open>AddBatches_\<close> lose theirs, and a data member
    \<^verbatim>\<open>x_\<close> is the record field \<open>x\<close> (the name of its accessor).
\<close>

datatype error =
    EmptyBufferError
  | InsufficientQuantityError
  | ConfigurationError
  | ExtractError
  | OutOfRange
  | BadLexicalCast
  | MissingElement

subsection \<open>Material (the resource collaborator)\<close>

text \<open>
  Modelled from the spec: \<^verbatim>\<open>cyclus::Material\<close> is not part of the sources. Section 3 of the
  specification gives a batch a quantity and a composition tag, with \<open>absorb\<close> (merge the
  other unit into this one), \<open>extract\<close> (split an amount off; fails when the amount
  exceeds the quantity) and \<open>transmute\<close> (replace the tag, keep the quantity). A
  composition is identified with the name of its recipe; a merged unit keeps the tag of
  the unit that absorbs.
\<close>

record Material =
  quantity :: real
  composition :: string

definition CreateUntracked :: "real \<Rightarrow> string \<Rightarrow> Material" where
  "CreateUntracked qty recipe = \<lparr>quantity = qty, composition = recipe\<rparr>"

definition Absorb :: "Material \<Rightarrow> Material \<Rightarrow> Material" where
  "Absorb m other = m\<lparr>quantity := quantity m + quantity other\<rparr>"

text \<open>\<open>Extract m amount\<close> returns the unit split off and what is left of \<open>m\<close>.\<close>

definition Extract :: "Material \<Rightarrow> real \<Rightarrow> error + Material \<times> Material" where
  "Extract m amount =
     (if amount > quantity m then Inl ExtractError
      else Inr (m\<lparr>quantity := amount\<rparr>, m\<lparr>quantity := quantity m - amount\<rparr>))"

definition Transmute :: "Material \<Rightarrow> string \<Rightarrow> Material" where
  "Transmute m recipe = m\<lparr>composition := recipe\<rparr>"

subsection \<open>ResourceBuff (the batch buffer)\<close>

text \<open>
  Modelled from the spec: \<^verbatim>\<open>cyclus::ResourceBuff\<close> is not part of the sources. Section 4.1
  of the specification: \<open>push\<close> appends; \<open>pop\<close> removes the first batch in insertion
  order and fails with \<open>EmptyBufferError\<close> on an empty buffer; \<open>pop_back\<close> does the same
  at the tail; \<open>pop_quantity\<close> removes batches from the front, splitting the last one
  with \<open>extract\<close>, until exactly the amount is removed, and fails with
  \<open>InsufficientQuantityError\<close> when the amount exceeds the buffer's quantity.
\<close>

type_synonym ResourceBuff = "Material list"

definition buf_quantity :: "ResourceBuff \<Rightarrow> real" where
  "buf_quantity b = sum_list (map quantity b)"

definition buf_count :: "ResourceBuff \<Rightarrow> int" where
  "buf_count b = int (length b)"

definition Push :: "Material \<Rightarrow> ResourceBuff \<Rightarrow> ResourceBuff" where
  "Push m b = b @ [m]"

definition Pop :: "ResourceBuff \<Rightarrow> error + Material \<times> ResourceBuff" where
  "Pop b = (case b of [] \<Rightarrow> Inl EmptyBufferError | m # ms \<Rightarrow> Inr (m, ms))"

definition PopBack :: "ResourceBuff \<Rightarrow> error + Material \<times> ResourceBuff" where
  "PopBack b = (if b = [] then Inl EmptyBufferError else Inr (last b, butlast b))"

text \<open>
  The removal loop of \<open>pop_quantity\<close>: \<open>left\<close> is what remains to be removed; the result
  is the manifest and the buffer that is left.
\<close>

fun PopQty_loop :: "real \<Rightarrow> ResourceBuff \<Rightarrow> error + Material list \<times> ResourceBuff" where
  "PopQty_loop left [] = Inr ([], [])"
| "PopQty_loop left (m # ms) =
     (if left \<le> 0 then Inr ([], m # ms)
      else if quantity m \<le> left then
        (case PopQty_loop (left - quantity m) ms of
           Inl e \<Rightarrow> Inl e
         | Inr (manifest, rest) \<Rightarrow> Inr (m # manifest, rest))
      else
        (case Extract m left of
           Inl e \<Rightarrow> Inl e
         | Inr (piece, m') \<Rightarrow> Inr ([piece], m' # ms)))"

definition PopQty :: "real \<Rightarrow> ResourceBuff \<Rightarrow> error + Material list \<times> ResourceBuff" where
  "PopQty amount b =
     (if amount > buf_quantity b then Inl InsufficientQuantityError
      else PopQty_loop amount b)"

subsection \<open>The facility\<close>

datatype Phase = INITIAL | PROCESS | WAITING

text \<open>
  The data members of \<^verbatim>\<open>BatchReactor\<close>, in the order of the constructor's initialiser
  list, then the three buffers and the table of produced commodities that the base class
  \<^verbatim>\<open>CommodityProducer\<close> keeps (commodity, capacity, cost).
\<close>

record BatchReactor =
  process_time :: int
  preorder_time :: int
  start_time :: int
  n_batches :: int
  n_load :: int
  n_reserves :: int
  refuel_time :: int
  batch_size :: real
  in_commodity :: string
  in_recipe :: string
  out_commodity :: string
  out_recipe :: string
  phase :: Phase
  reserves :: ResourceBuff
  core :: ResourceBuff
  storage :: ResourceBuff
  commodities :: "(string \<times> real \<times> real) list"

text \<open>The constructor \<^verbatim>\<open>BatchReactor::BatchReactor(ctx)\<close> (lines 24--46).\<close>

definition new_BatchReactor :: BatchReactor where
  "new_BatchReactor =
     \<lparr>process_time = 1, preorder_time = 0, start_time = - 1, n_batches = 1, n_load = 1,
      n_reserves = 1, refuel_time = 0, batch_size = 1, in_commodity = [], in_recipe = [],
      out_commodity = [], out_recipe = [], phase = INITIAL, reserves = [], core = [],
      storage = [], commodities = []\<rparr>"

subsection \<open>Delivery absorption: AddBatches\_ (lines 398--420)\<close>

text \<open>
  The loop \<^verbatim>\<open>while (mat->quantity() > batch_size()) { reserves_.Push(mat->Extract(batch_size())); }\<close>.
  With a batch size that is not positive it never ends, hence the option.
\<close>

partial_function (option) AddBatches_loop ::
  "real \<Rightarrow> Material \<Rightarrow> ResourceBuff \<Rightarrow> (error + Material \<times> ResourceBuff) option" where
  "AddBatches_loop bs mat res =
     (if quantity mat > bs then
        (case Extract mat bs of
           Inl e \<Rightarrow> Some (Inl e)
         | Inr (batch, mat') \<Rightarrow> AddBatches_loop bs mat' (Push batch res))
      else Some (Inr (mat, res)))"

text \<open>
  Lines 412--419: push \<open>last\<close> back, split full batches off \<open>mat\<close>, and push what is left
  of it when that exceeds \<^verbatim>\<open>cyclus::eps_rsrc()\<close>. That constant is declared in
  \<^verbatim>\<open>cyc_limits.h\<close>, which is not part of the sources; it is the parameter \<open>eps_rsrc\<close>.
\<close>

definition AddBatches_rest ::
  "real \<Rightarrow> Material \<Rightarrow> Material \<Rightarrow> ResourceBuff \<Rightarrow> BatchReactor \<Rightarrow> (error + BatchReactor) option" where
  "AddBatches_rest eps_rsrc last_m mat res s =
     (case AddBatches_loop (batch_size s) mat (Push last_m res) of
        None \<Rightarrow> None
      | Some (Inl e) \<Rightarrow> Some (Inl e)
      | Some (Inr (mat', res')) \<Rightarrow>
          Some (Inr (s\<lparr>reserves := (if quantity mat' > eps_rsrc then Push mat' res' else res')\<rparr>)))"

text \<open>
  Line 405 writes \<^verbatim>\<open>reserves.Push(last)\<close>; the member is \<^verbatim>\<open>reserves_\<close> everywhere else and
  the model reads it so.
\<close>

definition AddBatches :: "real \<Rightarrow> Material \<Rightarrow> BatchReactor \<Rightarrow> (error + BatchReactor) option" where
  "AddBatches eps_rsrc mat s =
     (case PopBack (reserves s) of
        Inl e \<Rightarrow> Some (Inl e)
      | Inr (last_m, res) \<Rightarrow>
          if quantity last_m < batch_size s then
            if quantity last_m + quantity mat \<le> batch_size s then
              Some (Inr (s\<lparr>reserves := Push (Absorb last_m mat) res\<rparr>))
            else
              (case Extract mat (batch_size s - quantity last_m) of
                 Inl e \<Rightarrow> Some (Inl e)
               | Inr (last_bit, mat') \<Rightarrow>
                   AddBatches_rest eps_rsrc (Absorb last_m last_bit) mat' res s)
          else AddBatches_rest eps_rsrc last_m mat res s)"

subsection \<open>The simulation context and the accessors of the header\<close>

text \<open>\<^verbatim>\<open>context()->time()\<close>: the current time step as the simulation context reports it.\<close>

record Context =
  time :: int

text \<open>
  Modelled from the spec: the accessors \<^verbatim>\<open>n_core()\<close> and \<^verbatim>\<open>end_time()\<close> are declared in
  \<^verbatim>\<open>batch_reactor.h\<close>, which is not part of the sources. The specification compares
  \<open>core.count()\<close> with \<open>n_batches\<close> and places the end of a processing run at
  \<open>start_time + process_time\<close>.
\<close>

definition n_core :: "BatchReactor \<Rightarrow> int" where
  "n_core s = buf_count (core s)"

definition end_time :: "BatchReactor \<Rightarrow> int" where
  "end_time s = start_time s + process_time s"

text \<open>
  Modelled from the spec: \<^verbatim>\<open>BatchIn(buffer, size)\<close> is declared in the same header. The
  specification lets a refuel step go ahead when a full batch (quantity at least
  \<open>batch_size\<close>) is available and never moves a partial batch; \<open>pop\<close> takes the first
  batch, so the test is read on the first batch. The functions below take the test as a
  parameter \<open>batch_in\<close>; this definition is the instance used in the examples.
\<close>

definition BatchIn :: "ResourceBuff \<Rightarrow> real \<Rightarrow> bool" where
  "BatchIn b sz = (case b of [] \<Rightarrow> False | m # ms \<Rightarrow> sz \<le> quantity m)"

subsection \<open>The phase setter (lines 350--356)\<close>

definition set_phase :: "Context \<Rightarrow> Phase \<Rightarrow> BatchReactor \<Rightarrow> BatchReactor" where
  "set_phase ctx p s =
     (case p of PROCESS \<Rightarrow> s\<lparr>start_time := time ctx\<rparr> | INITIAL \<Rightarrow> s | WAITING \<Rightarrow> s)
       \<lparr>phase := p\<rparr>"

subsection \<open>Moving batches (lines 359--376)\<close>

definition MoveBatchIn :: "BatchReactor \<Rightarrow> error + BatchReactor" where
  "MoveBatchIn s =
     (case Pop (reserves s) of
        Inl e \<Rightarrow> Inl e
      | Inr (m, res) \<Rightarrow> Inr (s\<lparr>reserves := res, core := Push m (core s)\<rparr>))"

definition MoveBatchOut :: "BatchReactor \<Rightarrow> error + BatchReactor" where
  "MoveBatchOut s =
     (case Pop (core s) of
        Inl e \<Rightarrow> Inl e
      | Inr (mat, c) \<Rightarrow>
          Inr (s\<lparr>core := c, storage := Push (Transmute mat (out_recipe s)) (storage s)\<rparr>))"

text \<open>\<^verbatim>\<open>while (n_core() < n_batches() && BatchIn(reserves_, batch_size())) MoveBatchIn_();\<close>\<close>

function Refuel :: "(ResourceBuff \<Rightarrow> real \<Rightarrow> bool) \<Rightarrow> BatchReactor \<Rightarrow> error + BatchReactor" where
  "Refuel batch_in s =
     (if n_core s < n_batches s \<and> batch_in (reserves s) (batch_size s) then
        (case MoveBatchIn s of
           Inl e \<Rightarrow> Inl e
         | Inr s' \<Rightarrow> Refuel batch_in s')
      else Inr s)"
  by pat_completeness auto
termination
  by (relation "measure (\<lambda>(batch_in, s). length (reserves s))")
     (auto simp: MoveBatchIn_def Pop_def split: list.splits)

subsection \<open>HandleTick and HandleTock (lines 209--242)\<close>

text \<open>\<^verbatim>\<open>for (int i = 0; i < n_load(); i++) MoveBatchOut_();\<close>\<close>

function MoveBatchOut_loop :: "int \<Rightarrow> BatchReactor \<Rightarrow> error + BatchReactor" where
  "MoveBatchOut_loop i s =
     (if i < n_load s then
        (case MoveBatchOut s of
           Inl e \<Rightarrow> Inl e
         | Inr s' \<Rightarrow> MoveBatchOut_loop (i + 1) s')
      else Inr s)"
  by pat_completeness auto
termination
  by (relation "measure (\<lambda>(i, s). nat (n_load s - i))")
     (auto simp: MoveBatchOut_def split: sum.splits)

text \<open>
  The argument of \<^verbatim>\<open>HandleTick(int time)\<close> is \<open>tick\<close> here, to keep it apart from the
  context's \<open>time\<close>; the PROCESS case reads the argument, the WAITING case and the phase
  setter read the context.
\<close>

definition HandleTick :: "Context \<Rightarrow> int \<Rightarrow> BatchReactor \<Rightarrow> error + BatchReactor" where
  "HandleTick ctx tick s =
     (case phase s of
        PROCESS \<Rightarrow>
          if tick = end_time s then
            (case MoveBatchOut_loop 0 s of
               Inl e \<Rightarrow> Inl e
             | Inr s' \<Rightarrow> Inr (set_phase ctx WAITING s'))
          else Inr s
      | WAITING \<Rightarrow>
          if n_core s = n_batches s \<and> end_time s + refuel_time s \<le> time ctx
          then Inr (set_phase ctx PROCESS s)
          else Inr s
      | INITIAL \<Rightarrow>
          if n_core s = n_batches s then Inr (set_phase ctx PROCESS s) else Inr s)"

definition HandleTock ::
  "(ResourceBuff \<Rightarrow> real \<Rightarrow> bool) \<Rightarrow> int \<Rightarrow> BatchReactor \<Rightarrow> error + BatchReactor" where
  "HandleTock batch_in tick s =
     (case phase s of
        INITIAL \<Rightarrow> Refuel batch_in s
      | WAITING \<Rightarrow> Refuel batch_in s
      | PROCESS \<Rightarrow> Inr s)"

subsection \<open>Fuel requests: GetMatlRequests and GetOrder\_ (lines 245--273, 379--395)\<close>

text \<open>
  A request of the exchange holds its target material and its commodity (the requester is
  the facility itself). A portfolio holds its requests and the capacities of its
  constraints.
\<close>

record Request =
  target :: Material
  commodity :: string

record RequestPortfolio =
  requests :: "Request list"
  constraints :: "real list"

definition GetOrder :: "BatchReactor \<Rightarrow> real \<Rightarrow> RequestPortfolio" where
  "GetOrder s sz =
     \<lparr>requests = [\<lparr>target = CreateUntracked sz (in_recipe s), commodity = in_commodity s\<rparr>],
      constraints = [sz]\<rparr>"

text \<open>
  \<^verbatim>\<open>order_time()\<close> is declared in the header and the specification leaves its arithmetic
  open; \<^verbatim>\<open>cyclus::eps()\<close> is a constant of \<^verbatim>\<open>cyc_limits.h\<close>. Both are parameters. The
  returned set holds at most one portfolio and is a list here.
\<close>

definition GetMatlRequests ::
  "(BatchReactor \<Rightarrow> int) \<Rightarrow> real \<Rightarrow> Context \<Rightarrow> BatchReactor \<Rightarrow> RequestPortfolio list" where
  "GetMatlRequests order_time eps ctx s =
     (let order_size = real_of_int (n_reserves s) * batch_size s - buf_quantity (reserves s)
      in if order_time s \<le> time ctx \<and> order_size > eps
         then [GetOrder s order_size]
         else [])"

subsection \<open>Accepting deliveries: AcceptMatlTrades (lines 276--284)\<close>

text \<open>
  \<^verbatim>\<open>responses.at(0)\<close> throws \<^verbatim>\<open>std::out_of_range\<close> on an empty vector. The loop from index 1
  absorbs every further material into the first one.
\<close>

definition AcceptMatlTrades ::
  "real \<Rightarrow> ('t \<times> Material) list \<Rightarrow> BatchReactor \<Rightarrow> (error + BatchReactor) option" where
  "AcceptMatlTrades eps_rsrc responses s =
     (case responses of
        [] \<Rightarrow> Some (Inl OutOfRange)
      | r # rs \<Rightarrow> AddBatches eps_rsrc (foldl Absorb (snd r) (map snd rs)) s)"

subsection \<open>Bids: GetMatlBids (lines 287--319)\<close>

record Bid =
  request :: Request
  offer :: Material

record BidPortfolio =
  bids :: "Bid list"
  bid_constraints :: "real list"

text \<open>The loop over the requests; \<^verbatim>\<open>storage_.quantity()\<close> does not change while it runs.\<close>

fun GetMatlBids_loop :: "BatchReactor \<Rightarrow> Request list \<Rightarrow> Bid list" where
  "GetMatlBids_loop s [] = []"
| "GetMatlBids_loop s (req # reqs) =
     (let qty = quantity (target req) in
      if qty < buf_quantity (storage s)
      then \<lparr>request = req, offer = CreateUntracked qty (out_recipe s)\<rparr> # GetMatlBids_loop s reqs
      else GetMatlBids_loop s reqs)"

text \<open>
  \<^verbatim>\<open>commod_requests.at(out_commodity_)\<close> throws \<^verbatim>\<open>std::out_of_range\<close> when the map has no
  entry for the commodity. The returned set holds the one portfolio.
\<close>

definition GetMatlBids ::
  "(string \<rightharpoonup> Request list) \<Rightarrow> BatchReactor \<Rightarrow> error + BidPortfolio list" where
  "GetMatlBids commod_requests s =
     (case commod_requests (out_commodity s) of
        None \<Rightarrow> Inl OutOfRange
      | Some reqs \<Rightarrow>
          Inr [\<lparr>bids = GetMatlBids_loop s reqs,
                bid_constraints = [buf_quantity (storage s)]\<rparr>])"

subsection \<open>Trade settlement: GetMatlTrades (lines 322--347)\<close>

text \<open>
  A trade carries its amount (and whatever else the exchange puts into it). For each
  trade the popped manifest is merged into its first element; \<^verbatim>\<open>manifest[0]\<close> on an empty
  manifest is an access out of range (undefined behaviour in C++), a failure here. The
  responses are appended to the vector the caller passes in.
\<close>

record Trade =
  amt :: real

fun GetMatlTrades ::
  "'a Trade_scheme list \<Rightarrow> ('a Trade_scheme \<times> Material) list \<Rightarrow> BatchReactor \<Rightarrow>
     error + ('a Trade_scheme \<times> Material) list \<times> BatchReactor" where
  "GetMatlTrades [] responses s = Inr (responses, s)"
| "GetMatlTrades (tr # trades) responses s =
     (case PopQty (amt tr) (storage s) of
        Inl e \<Rightarrow> Inl e
      | Inr (manifest, st) \<Rightarrow>
          (case manifest of
             [] \<Rightarrow> Inl OutOfRange
           | response # rest \<Rightarrow>
               GetMatlTrades trades (responses @ [(tr, foldl Absorb response rest)])
                 (s\<lparr>storage := st\<rparr>)))"

subsection \<open>Clone (lines 159--182)\<close>

text \<open>
  A new facility from the constructor, then the setters of lines 164--176 and the copy of
  the produced commodities. \<^verbatim>\<open>InitFrom\<close> belongs to the base class and touches none of the
  members modelled here.
\<close>

definition Clone :: "BatchReactor \<Rightarrow> BatchReactor" where
  "Clone s =
     new_BatchReactor
       \<lparr>in_commodity := in_commodity s,
        out_commodity := out_commodity s,
        in_recipe := in_recipe s,
        out_recipe := out_recipe s,
        process_time := process_time s,
        preorder_time := preorder_time s,
        start_time := start_time s,
        n_batches := n_batches s,
        n_load := n_load s,
        n_reserves := n_reserves s,
        batch_size := batch_size s,
        commodities := commodities s\<rparr>"

subsection \<open>Reading the configuration: InitModuleMembers (lines 110--156)\<close>














subsection \<open>The shape of the reserves\<close>

text \<open>
  \<open>quantized\<close>: every batch but the last one is full and the last one is at most full.
  \<open>at_most_one_partial\<close>: at most one batch is smaller than the batch size and every
  other one equals it, wherever the small one stands.
\<close>

definition quantized :: "real \<Rightarrow> ResourceBuff \<Rightarrow> bool" where
  "quantized bs b =
     (list_all (\<lambda>m. quantity m = bs) (butlast b) \<and> list_all (\<lambda>m. quantity m \<le> bs) b)"

definition at_most_one_partial :: "real \<Rightarrow> ResourceBuff \<Rightarrow> bool" where
  "at_most_one_partial bs b =
     (length (filter (\<lambda>m. quantity m < bs) b) \<le> 1 \<and> list_all (\<lambda>m. quantity m \<le> bs) b)"

subsection \<open>The material held by the facility\<close>

text \<open>\<open>reserves.quantity() + core.quantity() + storage.quantity()\<close>\<close>

definition total_quantity :: "BatchReactor \<Rightarrow> real" where
  "total_quantity s =
     buf_quantity (reserves s) + buf_quantity (core s) + buf_quantity (storage s)"

text \<open>
  The two loop equations are unconditional; they are unfolded by hand where needed.
\<close>

declare Refuel.simps [simp del]

declare MoveBatchOut_loop.simps [simp del]

section \<open>Properties\<close>

subsection \<open>Clone\<close>

lemma Clone_copies:
  "in_commodity (Clone s) = in_commodity s \<and> out_commodity (Clone s) = out_commodity s \<and>
   in_recipe (Clone s) = in_recipe s \<and> out_recipe (Clone s) = out_recipe s \<and>
   process_time (Clone s) = process_time s \<and> preorder_time (Clone s) = preorder_time s \<and>
   n_batches (Clone s) = n_batches s \<and> n_load (Clone s) = n_load s \<and>
   n_reserves (Clone s) = n_reserves s \<and> batch_size (Clone s) = batch_size s \<and>
   reserves (Clone s) = [] \<and> core (Clone s) = [] \<and> storage (Clone s) = []"
  by (simp add: Clone_def new_BatchReactor_def)

lemma Clone_refuel_time: "refuel_time (Clone s) = 0"
  by (simp add: Clone_def new_BatchReactor_def)

text \<open>
  Claim C9. \<^verbatim>\<open>Clone\<close> should give a facility whose configuration fields, \<open>refuel_time\<close>
  among them, equal the original's, with three empty buffers. Lines 164--176 copy every
  field of the list but \<open>refuel_time\<close> (\<open>Clone_copies\<close> above), for which no setter is
  called: the clone keeps the constructor's 0 whatever the original holds. A facility
  with \<open>refuel_time = 3\<close> is cloned into one with \<open>refuel_time = 0\<close>.
\<close>

theorem Clone_drops_refuel_time:
  "refuel_time (new_BatchReactor\<lparr>refuel_time := 3\<rparr>) = 3 \<and>
   refuel_time (Clone (new_BatchReactor\<lparr>refuel_time := 3\<rparr>)) = 0"
  by (simp add: Clone_def new_BatchReactor_def)

subsection \<open>Fuel requests\<close>

text \<open>
  Claim C7. On a tick where the order is eligible (\<open>order_time() \<le> context()->time()\<close>) a
  request is produced exactly when the deficit
  \<open>n_reserves * batch_size - reserves.quantity()\<close> exceeds the tolerance; its target has
  the deficit as quantity and \<open>in_recipe\<close> as recipe, its commodity is \<open>in_commodity\<close>, and
  the portfolio's one capacity constraint is the deficit. Otherwise nothing is requested.
\<close>

theorem GetMatlRequests_deficit:
  "order_time s \<le> time ctx \<Longrightarrow>
   GetMatlRequests order_time eps ctx s =
     (let deficit = real_of_int (n_reserves s) * batch_size s - buf_quantity (reserves s) in
      if deficit > eps
      then [\<lparr>requests = [\<lparr>target = \<lparr>quantity = deficit, composition = in_recipe s\<rparr>,
                            commodity = in_commodity s\<rparr>],
             constraints = [deficit]\<rparr>]
      else [])"
  by (simp add: GetMatlRequests_def GetOrder_def CreateUntracked_def Let_def)

theorem GetMatlRequests_deficit_witness:
  "(\<lambda>s. end_time s - preorder_time s)
      (new_BatchReactor\<lparr>n_reserves := 2, batch_size := 10,
         reserves := [\<lparr>quantity = 5, composition = ''uo2''\<rparr>]\<rparr>) \<le> time \<lparr>time = 4\<rparr> \<and>
   GetMatlRequests (\<lambda>s. end_time s - preorder_time s) (1 / 1000000) \<lparr>time = 4\<rparr>
      (new_BatchReactor\<lparr>n_reserves := 2, batch_size := 10,
         reserves := [\<lparr>quantity = 5, composition = ''uo2''\<rparr>]\<rparr>) =
     [\<lparr>requests = [\<lparr>target = \<lparr>quantity = 15, composition = []\<rparr>, commodity = []\<rparr>],
       constraints = [15]\<rparr>]"
proof -
  let ?s = "new_BatchReactor\<lparr>n_reserves := 2, batch_size := 10,
         reserves := [\<lparr>quantity = 5, composition = ''uo2''\<rparr>]\<rparr>"
  let ?ot = "\<lambda>s. end_time s - preorder_time s"
  have h: "?ot ?s \<le> time \<lparr>time = 4\<rparr>"
    by (simp add: end_time_def new_BatchReactor_def)
  have "GetMatlRequests ?ot (1 / 1000000) \<lparr>time = 4\<rparr> ?s =
     [\<lparr>requests = [\<lparr>target = \<lparr>quantity = 15, composition = []\<rparr>, commodity = []\<rparr>],
       constraints = [15]\<rparr>]"
    unfolding GetMatlRequests_deficit [where order_time = ?ot and s = ?s, OF h]
    by (simp add: new_BatchReactor_def buf_quantity_def Let_def)
  with h show ?thesis by blast
qed

subsection \<open>Accepting deliveries\<close>

lemma quantity_foldl_Absorb:
  "quantity (foldl Absorb m ms) = quantity m + sum_list (map quantity ms)"
  by (induction ms arbitrary: m) (simp_all add: Absorb_def)

lemma composition_foldl_Absorb: "composition (foldl Absorb m ms) = composition m"
  by (induction ms arbitrary: m) (simp_all add: Absorb_def)

text \<open>
  Claim C10. \<^verbatim>\<open>AcceptMatlTrades\<close> reads the first element of the response list without a
  test, so on an empty list the access fails (it is no no-op); on a list that is not
  empty it absorbs every delivered material into the first one and runs the batch
  quantization \<^verbatim>\<open>AddBatches_\<close> once, on the one material that holds the whole delivered
  quantity.
\<close>

theorem AcceptMatlTrades_merges_once:
  "AcceptMatlTrades eps_rsrc [] s = Some (Inl OutOfRange) \<and>
   (\<exists>mat. quantity mat = sum_list (map (\<lambda>r. quantity (snd r)) (r # rs)) \<and>
          composition mat = composition (snd r) \<and>
          AcceptMatlTrades eps_rsrc (r # rs) s = AddBatches eps_rsrc mat s)"
proof -
  let ?mat = "foldl Absorb (snd r) (map snd rs)"
  have "quantity ?mat = sum_list (map (\<lambda>r. quantity (snd r)) (r # rs))"
    by (simp add: quantity_foldl_Absorb o_def)
  moreover have "composition ?mat = composition (snd r)"
    by (rule composition_foldl_Absorb)
  moreover have "AcceptMatlTrades eps_rsrc (r # rs) s = AddBatches eps_rsrc ?mat s"
    by (simp add: AcceptMatlTrades_def)
  ultimately show ?thesis
    by (auto simp: AcceptMatlTrades_def)
qed

subsection \<open>Bids\<close>

lemma GetMatlBids_loop_eq:
  "GetMatlBids_loop s reqs =
     map (\<lambda>req. \<lparr>request = req,
                  offer = \<lparr>quantity = quantity (target req), composition = out_recipe s\<rparr>\<rparr>)
       (filter (\<lambda>req. quantity (target req) < buf_quantity (storage s)) reqs)"
  by (induction reqs) (simp_all add: CreateUntracked_def Let_def)

text \<open>
  Claim C5, as amended. Given the requests for \<open>out_commodity\<close>, \<^verbatim>\<open>GetMatlBids\<close> returns one
  portfolio: it holds, in the order of the requests, one bid of exactly the requested
  quantity at \<open>out_recipe\<close> for every request whose quantity is strictly below
  \<open>storage.quantity()\<close> and none for the others, and one capacity constraint equal to
  \<open>storage.quantity()\<close>. Every single bid is strictly below that constraint. The claim's
  last part does not hold: the sum of the bids of a portfolio is not bounded by the
  constraint (see the counterexample); it is the constraint that lets the exchange bound
  what it accepts.
\<close>

theorem GetMatlBids_portfolio:
  "commod_requests (out_commodity s) = Some reqs \<Longrightarrow>
   (\<exists>port. GetMatlBids commod_requests s = Inr [port] \<and>
      bids port =
        map (\<lambda>req. \<lparr>request = req,
                     offer = \<lparr>quantity = quantity (target req), composition = out_recipe s\<rparr>\<rparr>)
          (filter (\<lambda>req. quantity (target req) < buf_quantity (storage s)) reqs) \<and>
      bid_constraints port = [buf_quantity (storage s)] \<and>
      list_all (\<lambda>b. quantity (offer b) < buf_quantity (storage s)) (bids port))"
  by (simp add: GetMatlBids_def GetMatlBids_loop_eq list_all_iff)

theorem GetMatlBids_portfolio_witness:
  "(\<lambda>c. if c = ''spent'' then Some [\<lparr>target = \<lparr>quantity = 4, composition = ''any''\<rparr>, commodity = ''spent''\<rparr>,
        \<lparr>target = \<lparr>quantity = 10, composition = ''any''\<rparr>, commodity = ''spent''\<rparr>] else None)
     (out_commodity (new_BatchReactor\<lparr>out_commodity := ''spent'', out_recipe := ''waste'',
        storage := [\<lparr>quantity = 10, composition = ''waste''\<rparr>]\<rparr>)) =
     Some [\<lparr>target = \<lparr>quantity = 4, composition = ''any''\<rparr>, commodity = ''spent''\<rparr>,
        \<lparr>target = \<lparr>quantity = 10, composition = ''any''\<rparr>, commodity = ''spent''\<rparr>] \<and>
   (\<exists>port. GetMatlBids (\<lambda>c. if c = ''spent'' then Some [\<lparr>target = \<lparr>quantity = 4, composition = ''any''\<rparr>, commodity = ''spent''\<rparr>,
        \<lparr>target = \<lparr>quantity = 10, composition = ''any''\<rparr>, commodity = ''spent''\<rparr>] else None)
       (new_BatchReactor\<lparr>out_commodity := ''spent'', out_recipe := ''waste'',
        storage := [\<lparr>quantity = 10, composition = ''waste''\<rparr>]\<rparr>) = Inr [port] \<and>
      bids port = [\<lparr>request = \<lparr>target = \<lparr>quantity = 4, composition = ''any''\<rparr>, commodity = ''spent''\<rparr>,
                    offer = \<lparr>quantity = 4, composition = ''waste''\<rparr>\<rparr>] \<and>
      bid_constraints port = [10])"
proof -
  let ?reqs = "[\<lparr>target = \<lparr>quantity = 4, composition = ''any''\<rparr>, commodity = ''spent''\<rparr>,
        \<lparr>target = \<lparr>quantity = 10, composition = ''any''\<rparr>, commodity = ''spent''\<rparr>]"
  let ?cr = "\<lambda>c. if c = ''spent'' then Some ?reqs else None"
  let ?s = "new_BatchReactor\<lparr>out_commodity := ''spent'', out_recipe := ''waste'',
        storage := [\<lparr>quantity = 10, composition = ''waste''\<rparr>]\<rparr>"
  have h: "?cr (out_commodity ?s) = Some ?reqs"
    by (simp add: new_BatchReactor_def)
  from GetMatlBids_portfolio [of ?cr ?s ?reqs, OF h] obtain port where
    "GetMatlBids ?cr ?s = Inr [port]"
    "bids port = map (\<lambda>req. \<lparr>request = req,
                     offer = \<lparr>quantity = quantity (target req), composition = out_recipe ?s\<rparr>\<rparr>)
          (filter (\<lambda>req. quantity (target req) < buf_quantity (storage ?s)) ?reqs)"
    "bid_constraints port = [buf_quantity (storage ?s)]"
    by blast
  then have "GetMatlBids ?cr ?s = Inr [port] \<and>
      bids port = [\<lparr>request = \<lparr>target = \<lparr>quantity = 4, composition = ''any''\<rparr>, commodity = ''spent''\<rparr>,
                    offer = \<lparr>quantity = 4, composition = ''waste''\<rparr>\<rparr>] \<and>
      bid_constraints port = [10]"
    by (simp add: new_BatchReactor_def buf_quantity_def)
  with h show ?thesis by blast
qed

text \<open>
  Two requests of 6 against a storage of 10: both are bid on. The portfolio is summarised
  by its bid quantities, their sum and its constraints: the bids sum to 12, the
  constraint is 10.
\<close>

theorem GetMatlBids_sum_counterexample:
  "map_sum id
     (map (\<lambda>port. (map (\<lambda>b. quantity (offer b)) (bids port),
                   sum_list (map (\<lambda>b. quantity (offer b)) (bids port)),
                   bid_constraints port)))
     (GetMatlBids
        (\<lambda>c. if c = ''spent''
             then Some [\<lparr>target = \<lparr>quantity = 6, composition = ''any''\<rparr>, commodity = ''spent''\<rparr>,
                        \<lparr>target = \<lparr>quantity = 6, composition = ''any''\<rparr>, commodity = ''spent''\<rparr>]
             else None)
        (new_BatchReactor\<lparr>out_commodity := ''spent'', out_recipe := ''waste'',
           storage := [\<lparr>quantity = 10, composition = ''waste''\<rparr>]\<rparr>)) =
     Inr [([6, 6], 12, [10])] \<and>
   \<not> ((12::real) \<le> 10)"
  by (simp add: GetMatlBids_def new_BatchReactor_def buf_quantity_def CreateUntracked_def)

subsection \<open>The phase machine at tick time\<close>

lemma MoveBatchOut_loop_eq:
  "MoveBatchOut_loop i s =
     (if nat (n_load s - i) \<le> length (core s)
      then Inr (s\<lparr>core := drop (nat (n_load s - i)) (core s),
                  storage := storage s @
                    map (\<lambda>m. m\<lparr>composition := out_recipe s\<rparr>) (take (nat (n_load s - i)) (core s))\<rparr>)
      else Inl EmptyBufferError)"
proof (induction i s rule: MoveBatchOut_loop.induct)
  case (1 i s)
  show ?case
  proof (cases "i < n_load s")
    case False
    then show ?thesis
      by (subst MoveBatchOut_loop.simps) simp
  next
    case True
    define k where "k = nat (n_load s - (i + 1))"
    have k: "nat (n_load s - i) = Suc k" "nat (n_load s - (i + 1)) = k"
      using True by (simp_all add: k_def)
    show ?thesis
    proof (cases "core s")
      case Nil
      with True k show ?thesis
        by (subst MoveBatchOut_loop.simps) (simp add: MoveBatchOut_def Pop_def)
    next
      case (Cons m c)
      let ?s' = "s\<lparr>core := c, storage := storage s @ [m\<lparr>composition := out_recipe s\<rparr>]\<rparr>"
      have mv: "MoveBatchOut s = Inr ?s'"
        using Cons by (simp add: MoveBatchOut_def Pop_def Push_def Transmute_def)
      have "MoveBatchOut_loop i s = MoveBatchOut_loop (i + 1) ?s'"
        using True mv by (subst MoveBatchOut_loop.simps) simp
      also have "\<dots> = (if k \<le> length c
          then Inr (?s'\<lparr>core := drop k c,
                  storage := storage ?s' @ map (\<lambda>m. m\<lparr>composition := out_recipe s\<rparr>) (take k c)\<rparr>)
          else Inl EmptyBufferError)"
        using "1.IH"[OF True mv] k by simp
      finally show ?thesis
        using Cons k by (simp add: Push_def)
    qed
  qed
qed

text \<open>
  Claim C3. In phase PROCESS, the tick whose time equals \<open>start_time + process_time\<close> pops
  \<open>n_load\<close> batches from the front of the core, in order, transmutes each to
  \<open>out_recipe\<close>, appends each to the storage and then sets the phase to WAITING (when the
  core holds fewer than \<open>n_load\<close> batches the pop on the empty core fails, the
  precondition violation of section 4.3.1); a tick at any other time, earlier or later,
  changes neither a buffer nor the phase.
\<close>

theorem HandleTick_PROCESS:
  "phase s = PROCESS \<Longrightarrow>
   HandleTick ctx tick s =
     (if tick = start_time s + process_time s then
        (if nat (n_load s) \<le> length (core s) then
           Inr (s\<lparr>core := drop (nat (n_load s)) (core s),
                   storage := storage s @
                     map (\<lambda>m. m\<lparr>composition := out_recipe s\<rparr>) (take (nat (n_load s)) (core s)),
                   phase := WAITING\<rparr>)
         else Inl EmptyBufferError)
      else Inr s)"
proof -
  assume p: "phase s = PROCESS"
  have l: "MoveBatchOut_loop 0 s =
     (if nat (n_load s) \<le> length (core s)
      then Inr (s\<lparr>core := drop (nat (n_load s)) (core s),
                  storage := storage s @
                    map (\<lambda>m. m\<lparr>composition := out_recipe s\<rparr>) (take (nat (n_load s)) (core s))\<rparr>)
      else Inl EmptyBufferError)"
    using MoveBatchOut_loop_eq [of 0 s] by simp
  show ?thesis
  proof (cases "tick = start_time s + process_time s")
    case True
    have "HandleTick ctx tick s =
        (case MoveBatchOut_loop 0 s of Inl e \<Rightarrow> Inl e | Inr s' \<Rightarrow> Inr (set_phase ctx WAITING s'))"
      by (simp add: HandleTick_def p end_time_def True)
    also have "\<dots> = (if nat (n_load s) \<le> length (core s) then
           Inr (s\<lparr>core := drop (nat (n_load s)) (core s),
                   storage := storage s @
                     map (\<lambda>m. m\<lparr>composition := out_recipe s\<rparr>) (take (nat (n_load s)) (core s)),
                   phase := WAITING\<rparr>)
         else Inl EmptyBufferError)"
      unfolding l by (simp add: set_phase_def)
    finally show ?thesis
      using True by simp
  next
    case False
    then show ?thesis
      unfolding HandleTick_def end_time_def using p by simp
  qed
qed

theorem HandleTick_PROCESS_witness:
  "phase (new_BatchReactor\<lparr>start_time := 0, process_time := 5, n_load := 2, out_recipe := ''waste'',
      phase := PROCESS,
      core := [\<lparr>quantity = 10, composition = ''uo2''\<rparr>, \<lparr>quantity = 9, composition = ''uo2''\<rparr>,
               \<lparr>quantity = 8, composition = ''uo2''\<rparr>]\<rparr>) = PROCESS \<and>
   HandleTick \<lparr>time = 5\<rparr> 5
     (new_BatchReactor\<lparr>start_time := 0, process_time := 5, n_load := 2, out_recipe := ''waste'',
      phase := PROCESS,
      core := [\<lparr>quantity = 10, composition = ''uo2''\<rparr>, \<lparr>quantity = 9, composition = ''uo2''\<rparr>,
               \<lparr>quantity = 8, composition = ''uo2''\<rparr>]\<rparr>) =
     Inr (new_BatchReactor\<lparr>start_time := 0, process_time := 5, n_load := 2, out_recipe := ''waste'',
      phase := WAITING,
      core := [\<lparr>quantity = 8, composition = ''uo2''\<rparr>],
      storage := [\<lparr>quantity = 10, composition = ''waste''\<rparr>, \<lparr>quantity = 9, composition = ''waste''\<rparr>]\<rparr>) \<and>
   HandleTick \<lparr>time = 4\<rparr> 4
     (new_BatchReactor\<lparr>start_time := 0, process_time := 5, n_load := 2, out_recipe := ''waste'',
      phase := PROCESS,
      core := [\<lparr>quantity = 10, composition = ''uo2''\<rparr>, \<lparr>quantity = 9, composition = ''uo2''\<rparr>,
               \<lparr>quantity = 8, composition = ''uo2''\<rparr>]\<rparr>) =
     Inr (new_BatchReactor\<lparr>start_time := 0, process_time := 5, n_load := 2, out_recipe := ''waste'',
      phase := PROCESS,
      core := [\<lparr>quantity = 10, composition = ''uo2''\<rparr>, \<lparr>quantity = 9, composition = ''uo2''\<rparr>,
               \<lparr>quantity = 8, composition = ''uo2''\<rparr>]\<rparr>)"
proof -
  let ?s = "new_BatchReactor\<lparr>start_time := 0, process_time := 5, n_load := 2, out_recipe := ''waste'',
      phase := PROCESS,
      core := [\<lparr>quantity = 10, composition = ''uo2''\<rparr>, \<lparr>quantity = 9, composition = ''uo2''\<rparr>,
               \<lparr>quantity = 8, composition = ''uo2''\<rparr>]\<rparr>"
  have h: "phase ?s = PROCESS" by simp
  have n: "nat 2 = Suc (Suc 0)" by simp
  show ?thesis
    unfolding HandleTick_PROCESS [of ?s, OF h]
    by (simp add: new_BatchReactor_def n)
qed

text \<open>
  The end of a run and the refuel time while the facility waits. The tick that moves
  from PROCESS to WAITING is the tick \<open>start_time + process_time\<close>, and neither that tick
  nor a tock, a delivery or a trade settlement changes \<open>start_time\<close>, \<open>process_time\<close>,
  \<open>refuel_time\<close> or the phase. So in phase WAITING \<open>start_time + process_time\<close> is the
  tick at which the previous run ended.
\<close>

lemma discharge_tick_ends_run:
  "phase s = PROCESS \<Longrightarrow> HandleTick ctx tick s = Inr s' \<Longrightarrow> phase s' = WAITING \<Longrightarrow>
   tick = start_time s' + process_time s' \<and> refuel_time s' = refuel_time s"
  by (auto simp: HandleTick_def end_time_def MoveBatchOut_loop_eq set_phase_def
      split: if_splits)

lemma MoveBatchIn_frame:
  "MoveBatchIn s = Inr s' \<Longrightarrow>
   phase s' = phase s \<and> start_time s' = start_time s \<and> process_time s' = process_time s \<and>
   refuel_time s' = refuel_time s \<and> storage s' = storage s"
  by (auto simp: MoveBatchIn_def split: sum.splits)

lemma Refuel_frame:
  "Refuel batch_in s = Inr s' \<Longrightarrow>
   phase s' = phase s \<and> start_time s' = start_time s \<and> process_time s' = process_time s \<and>
   refuel_time s' = refuel_time s \<and> storage s' = storage s"
proof (induction batch_in s rule: Refuel.induct)
  case (1 batch_in s)
  show ?case
  proof (cases "n_core s < n_batches s \<and> batch_in (reserves s) (batch_size s)")
    case False
    with "1.prems" show ?thesis
      by (subst (asm) Refuel.simps) simp
  next
    case True
    with "1.prems" obtain s1 where mv: "MoveBatchIn s = Inr s1" and r: "Refuel batch_in s1 = Inr s'"
      by (subst (asm) Refuel.simps) (auto split: sum.splits)
    from "1.IH" [OF True mv r] MoveBatchIn_frame [OF mv] show ?thesis by simp
  qed
qed

lemma HandleTock_frame:
  "HandleTock batch_in tick s = Inr s' \<Longrightarrow>
   phase s' = phase s \<and> start_time s' = start_time s \<and> process_time s' = process_time s \<and>
   refuel_time s' = refuel_time s \<and> storage s' = storage s"
  by (cases "phase s") (auto simp: HandleTock_def dest: Refuel_frame)

lemma AddBatches_frame:
  "AddBatches eps_rsrc mat s = Some (Inr s') \<Longrightarrow>
   phase s' = phase s \<and> start_time s' = start_time s \<and> process_time s' = process_time s \<and>
   refuel_time s' = refuel_time s \<and> core s' = core s \<and> storage s' = storage s"
  by (auto simp: AddBatches_def AddBatches_rest_def split: sum.splits if_splits option.splits)

lemma AcceptMatlTrades_frame:
  "AcceptMatlTrades eps_rsrc deliveries s = Some (Inr s') \<Longrightarrow>
   phase s' = phase s \<and> start_time s' = start_time s \<and> process_time s' = process_time s \<and>
   refuel_time s' = refuel_time s \<and> core s' = core s \<and> storage s' = storage s"
  by (cases deliveries) (simp_all add: AcceptMatlTrades_def AddBatches_frame)

lemma GetMatlTrades_frame:
  "GetMatlTrades trades responses s = Inr (responses', s') \<Longrightarrow>
   phase s' = phase s \<and> start_time s' = start_time s \<and> process_time s' = process_time s \<and>
   refuel_time s' = refuel_time s \<and> core s' = core s \<and> reserves s' = reserves s"
proof (induction trades arbitrary: responses s)
  case Nil
  then show ?case by simp
next
  case (Cons tr trades)
  from Cons.prems obtain m ms st where
    "GetMatlTrades trades (responses @ [(tr, foldl Absorb m ms)]) (s\<lparr>storage := st\<rparr>) =
       Inr (responses', s')"
    by (auto split: sum.splits list.splits)
  from Cons.IH [OF this] show ?case by simp
qed



subsection \<open>Quantities held by the buffers\<close>

lemma buf_quantity_simps:
  "buf_quantity [] = 0"
  "buf_quantity (m # ms) = quantity m + buf_quantity ms"
  "buf_quantity (xs @ ys) = buf_quantity xs + buf_quantity ys"
  by (simp_all add: buf_quantity_def)

lemma PopQty_loop_ok:
  "0 \<le> left \<Longrightarrow> left \<le> buf_quantity b \<Longrightarrow>
   \<exists>manifest rest. PopQty_loop left b = Inr (manifest, rest) \<and>
      buf_quantity manifest = left \<and>
      buf_quantity rest = buf_quantity b - left \<and>
      (manifest = [] \<longleftrightarrow> left = 0)"
proof (induction b arbitrary: left)
  case Nil
  then show ?case by (simp add: buf_quantity_simps)
next
  case (Cons m ms)
  show ?case
  proof (cases "left \<le> 0")
    case True
    with Cons.prems show ?thesis by (simp add: buf_quantity_simps)
  next
    case pos: False
    show ?thesis
    proof (cases "quantity m \<le> left")
      case True
      with Cons.prems have "0 \<le> left - quantity m" "left - quantity m \<le> buf_quantity ms"
        by (simp_all add: buf_quantity_simps)
      from Cons.IH [OF this] obtain manifest rest where
        "PopQty_loop (left - quantity m) ms = Inr (manifest, rest)"
        "buf_quantity manifest = left - quantity m"
        "buf_quantity rest = buf_quantity ms - (left - quantity m)"
        by blast
      with pos True show ?thesis by (simp add: buf_quantity_simps)
    next
      case False
      with pos show ?thesis by (simp add: buf_quantity_simps Extract_def)
    qed
  qed
qed

lemma PopQty_loop_nonpos:
  "left \<le> 0 \<Longrightarrow> PopQty_loop left b = Inr ([], b)"
  by (cases b) simp_all


lemma AddBatches_loop_conserve_aux:
  assumes "AddBatches_loop bs mat res = Some y"
  shows "y = Inr (mat', res') \<longrightarrow>
         quantity mat' + buf_quantity res' = quantity mat + buf_quantity res \<and>
         (0 < quantity mat' \<or> quantity mat' = quantity mat)"
proof (rule AddBatches_loop.raw_induct
    [where P = "\<lambda>bs mat res y. y = Inr (mat', res') \<longrightarrow>
        quantity mat' + buf_quantity res' = quantity mat + buf_quantity res \<and>
        (0 < quantity mat' \<or> quantity mat' = quantity mat)", OF _ assms], goal_cases)
  case (1 loop b m r z)
  show ?case
  proof (cases "b < quantity m")
    case False
    with 1(2) show ?thesis by auto
  next
    case True
    let ?batch = "m\<lparr>quantity := b\<rparr>"
    let ?m1 = "m\<lparr>quantity := quantity m - b\<rparr>"
    from True 1(2) have "loop b ?m1 (Push ?batch r) = Some z"
      by (simp add: Extract_def)
    from 1(1) [OF this] True show ?thesis
      by (auto simp: Push_def buf_quantity_simps)
  qed
qed

lemma AddBatches_loop_conserve:
  assumes "AddBatches_loop bs mat res = Some (Inr (mat', res'))"
  shows "quantity mat' + buf_quantity res' = quantity mat + buf_quantity res \<and>
         (0 < quantity mat' \<or> quantity mat' = quantity mat)"
  using AddBatches_loop_conserve_aux [OF assms] by simp

lemma AddBatches_rest_conserve:
  assumes "AddBatches_rest eps_rsrc last_m mat res s = Some (Inr s')"
  shows "core s' = core s \<and> storage s' = storage s \<and>
         (\<exists>d. buf_quantity (reserves s') = buf_quantity res + quantity last_m + quantity mat - d \<and>
              (d = 0 \<or> (d \<le> eps_rsrc \<and> (0 < d \<or> d = quantity mat))))"
proof -
  from assms obtain mat' res' where
    l: "AddBatches_loop (batch_size s) mat (Push last_m res) = Some (Inr (mat', res'))"
    and s': "s' = s\<lparr>reserves := (if quantity mat' > eps_rsrc then Push mat' res' else res')\<rparr>"
    by (auto simp: AddBatches_rest_def split: option.splits sum.splits)
  from AddBatches_loop_conserve [OF l] have
    c: "quantity mat' + buf_quantity res' = quantity mat + (buf_quantity res + quantity last_m)"
    and r: "0 < quantity mat' \<or> quantity mat' = quantity mat"
    by (simp_all add: Push_def buf_quantity_simps)
  show ?thesis
  proof (cases "quantity mat' > eps_rsrc")
    case True
    with s' c have "buf_quantity (reserves s') = buf_quantity res + quantity last_m + quantity mat - 0"
      by (simp add: Push_def buf_quantity_simps)
    with s' show ?thesis by auto
  next
    case False
    with s' c have "buf_quantity (reserves s') =
        buf_quantity res + quantity last_m + quantity mat - quantity mat'"
      by (simp add: Push_def buf_quantity_simps)
    with s' False r show ?thesis
      by (intro conjI) (simp, simp, rule exI [of _ "quantity mat'"], auto)
  qed
qed

lemma PopBack_quantity:
  "PopBack b = Inr (last_m, res) \<Longrightarrow> buf_quantity b = buf_quantity res + quantity last_m"
proof -
  assume a: "PopBack b = Inr (last_m, res)"
  then have "b \<noteq> []" "last_m = last b" "res = butlast b"
    by (auto simp: PopBack_def split: if_splits)
  then have "b = res @ [last_m]" by simp
  then show ?thesis by (simp add: buf_quantity_simps)
qed

lemma AddBatches_conserve:
  assumes "AddBatches eps_rsrc mat s = Some (Inr s')"
  shows "core s' = core s \<and> storage s' = storage s \<and>
         (\<exists>d. buf_quantity (reserves s') = buf_quantity (reserves s) + quantity mat - d \<and>
              (d = 0 \<or> (d \<le> eps_rsrc \<and> 0 \<le> d) \<or> (d \<le> eps_rsrc \<and> d = quantity mat)))"
proof -
  from assms obtain last_m res where pb: "PopBack (reserves s) = Inr (last_m, res)"
    by (auto simp: AddBatches_def split: sum.splits)
  note q = PopBack_quantity [OF pb]
  show ?thesis
  proof (cases "quantity last_m < batch_size s")
    case False
    with assms pb have "AddBatches_rest eps_rsrc last_m mat res s = Some (Inr s')"
      by (simp add: AddBatches_def)
    from AddBatches_rest_conserve [OF this] q show ?thesis
      by (auto simp: )
  next
    case small: True
    show ?thesis
    proof (cases "quantity last_m + quantity mat \<le> batch_size s")
      case True
      with small assms pb have "s' = s\<lparr>reserves := Push (Absorb last_m mat) res\<rparr>"
        by (simp add: AddBatches_def)
      then have "core s' = core s" "storage s' = storage s"
        "buf_quantity (reserves s') = buf_quantity (reserves s) + quantity mat - 0"
        using q by (simp_all add: Push_def Absorb_def buf_quantity_simps)
      then show ?thesis by blast
    next
      case False
      let ?bit = "mat\<lparr>quantity := batch_size s - quantity last_m\<rparr>"
      let ?mat1 = "mat\<lparr>quantity := quantity mat - (batch_size s - quantity last_m)\<rparr>"
      from False small assms pb have
        "AddBatches_rest eps_rsrc (Absorb last_m ?bit) ?mat1 res s = Some (Inr s')"
        by (simp add: AddBatches_def Extract_def)
      from AddBatches_rest_conserve [OF this] obtain d where
        "core s' = core s" "storage s' = storage s"
        "buf_quantity (reserves s') =
           buf_quantity res + quantity (Absorb last_m ?bit) + quantity ?mat1 - d"
        "d = 0 \<or> (d \<le> eps_rsrc \<and> (0 < d \<or> d = quantity ?mat1))"
        by blast
      with q False show ?thesis
        by (intro conjI) (simp, simp, rule exI [of _ d], auto simp: Absorb_def)
    qed
  qed
qed

lemma MoveBatchIn_total:
  "MoveBatchIn s = Inr s' \<Longrightarrow> total_quantity s' = total_quantity s"
  by (auto simp: MoveBatchIn_def Pop_def Push_def total_quantity_def buf_quantity_simps
      split: list.splits)

lemma Refuel_total:
  "Refuel batch_in s = Inr s' \<Longrightarrow> total_quantity s' = total_quantity s"
proof (induction batch_in s rule: Refuel.induct)
  case (1 batch_in s)
  show ?case
  proof (cases "n_core s < n_batches s \<and> batch_in (reserves s) (batch_size s)")
    case False
    with "1.prems" show ?thesis
      by (subst (asm) Refuel.simps) simp
  next
    case True
    with "1.prems" obtain s1 where mv: "MoveBatchIn s = Inr s1" and r: "Refuel batch_in s1 = Inr s'"
      by (subst (asm) Refuel.simps) (auto split: sum.splits)
    from "1.IH" [OF True mv r] MoveBatchIn_total [OF mv] show ?thesis by simp
  qed
qed

lemma HandleTock_total:
  "HandleTock batch_in tick s = Inr s' \<Longrightarrow> total_quantity s' = total_quantity s"
  by (cases "phase s") (auto simp: HandleTock_def dest: Refuel_total)

lemma buf_quantity_take_drop:
  "buf_quantity (take k b) + buf_quantity (drop k b) = buf_quantity b"
  by (metis append_take_drop_id buf_quantity_simps(3))

lemma buf_quantity_transmuted:
  "buf_quantity (map (\<lambda>m. m\<lparr>composition := r\<rparr>) b) = buf_quantity b"
  by (induction b) (simp_all add: buf_quantity_simps)

lemma MoveBatchOut_loop_total:
  "MoveBatchOut_loop i s = Inr s' \<Longrightarrow> total_quantity s' = total_quantity s"
  using buf_quantity_take_drop [of "nat (n_load s - i)" "core s"]
  by (auto simp: MoveBatchOut_loop_eq total_quantity_def buf_quantity_simps
      buf_quantity_transmuted split: if_splits)

lemma set_phase_total: "total_quantity (set_phase ctx p s) = total_quantity s"
  by (cases p) (simp_all add: set_phase_def total_quantity_def)

lemma HandleTick_total:
  "HandleTick ctx tick s = Inr s' \<Longrightarrow> total_quantity s' = total_quantity s"
  by (cases "phase s")
    (auto simp: HandleTick_def set_phase_total split: if_splits sum.splits
      dest: MoveBatchOut_loop_total)

lemma PopQty_removes:
  assumes "PopQty amount b = Inr (m # ms, rest)"
  shows "0 < amount \<and> amount \<le> buf_quantity b \<and> buf_quantity rest = buf_quantity b - amount \<and>
         buf_quantity (m # ms) = amount"
proof -
  from assms have le: "amount \<le> buf_quantity b" and l: "PopQty_loop amount b = Inr (m # ms, rest)"
    by (auto simp: PopQty_def split: if_splits)
  have pos: "0 < amount"
  proof (rule ccontr)
    assume "\<not> 0 < amount"
    then have "PopQty_loop amount b = Inr ([], b)" by (simp add: PopQty_loop_nonpos)
    with l show False by simp
  qed
  with PopQty_loop_ok [of amount b] le l show ?thesis by auto
qed

lemma GetMatlTrades_total:
  "GetMatlTrades trades responses s = Inr (responses', s') \<Longrightarrow>
   total_quantity s' = total_quantity s - sum_list (map amt trades)"
proof (induction trades arbitrary: responses s)
  case Nil
  then show ?case by simp
next
  case (Cons tr trades)
  from Cons.prems obtain m ms st where
    p: "PopQty (amt tr) (storage s) = Inr (m # ms, st)"
    and g: "GetMatlTrades trades (responses @ [(tr, foldl Absorb m ms)]) (s\<lparr>storage := st\<rparr>) =
            Inr (responses', s')"
    by (auto split: sum.splits list.splits)
  from PopQty_removes [OF p] have "buf_quantity st = buf_quantity (storage s) - amt tr" by simp
  with Cons.IH [OF g] show ?case by (simp add: total_quantity_def)
qed

lemma AcceptMatlTrades_total:
  assumes "AcceptMatlTrades eps_rsrc deliveries s = Some (Inr s')"
    and "0 \<le> eps_rsrc" and "0 \<le> sum_list (map (\<lambda>r. quantity (snd r)) deliveries)"
  shows "total_quantity s' \<le> total_quantity s + sum_list (map (\<lambda>r. quantity (snd r)) deliveries) \<and>
         total_quantity s + sum_list (map (\<lambda>r. quantity (snd r)) deliveries) - eps_rsrc
           \<le> total_quantity s'"
proof -
  from assms(1) obtain r rs where d: "deliveries = r # rs"
    by (cases deliveries) (simp_all add: AcceptMatlTrades_def)
  let ?mat = "foldl Absorb (snd r) (map snd rs)"
  have q: "quantity ?mat = sum_list (map (\<lambda>r. quantity (snd r)) deliveries)"
    by (simp add: d quantity_foldl_Absorb o_def)
  from assms(1) d have "AddBatches eps_rsrc ?mat s = Some (Inr s')"
    by (simp add: AcceptMatlTrades_def)
  from AddBatches_conserve [OF this] q assms(2,3) show ?thesis
    by (auto simp: total_quantity_def)
qed

lemma Refuel_returns:
  "(\<And>b sz. batch_in b sz \<Longrightarrow> b \<noteq> []) \<Longrightarrow> \<exists>s'. Refuel batch_in s = Inr s'"
proof (induction batch_in s rule: Refuel.induct)
  case (1 batch_in s)
  show ?case
  proof (cases "n_core s < n_batches s \<and> batch_in (reserves s) (batch_size s)")
    case False
    then show ?thesis by (subst Refuel.simps) auto
  next
    case True
    with "1.prems" obtain m ms where "reserves s = m # ms"
      by (cases "reserves s") auto
    then obtain s1 where mv: "MoveBatchIn s = Inr s1"
      by (simp add: MoveBatchIn_def Pop_def)
    have "\<exists>s'. Refuel batch_in s1 = Inr s'"
      by (rule "1.IH" [OF True mv]) (erule "1.prems")
    then obtain s' where "Refuel batch_in s1 = Inr s'" ..
    with True mv show ?thesis by (subst Refuel.simps) simp
  qed
qed

lemma Refuel_BatchIn_returns: "\<exists>s'. Refuel BatchIn s = Inr s'"
  by (rule Refuel_returns) (auto simp: BatchIn_def)

lemma AddBatches_loop_returns_aux:
  "0 < bs \<Longrightarrow> quantity mat \<le> bs * real (Suc n) \<Longrightarrow>
   \<exists>k. AddBatches_loop bs mat res =
         Some (Inr (mat\<lparr>quantity := quantity mat - real k * bs\<rparr>,
                    res @ replicate k (mat\<lparr>quantity := bs\<rparr>))) \<and>
       quantity mat - real k * bs \<le> bs \<and>
       (k = 0 \<or> 0 < quantity mat - real k * bs)"
proof (induction n arbitrary: mat res)
  case 0
  then have "AddBatches_loop bs mat res = Some (Inr (mat, res))"
    by (subst AddBatches_loop.simps) simp
  with 0 show ?case by (intro exI [of _ 0]) simp
next
  case (Suc n)
  show ?case
  proof (cases "bs < quantity mat")
    case False
    then have "AddBatches_loop bs mat res = Some (Inr (mat, res))"
      by (subst AddBatches_loop.simps) simp
    with False show ?thesis by (intro exI [of _ 0]) simp
  next
    case True
    let ?batch = "mat\<lparr>quantity := bs\<rparr>"
    let ?m1 = "mat\<lparr>quantity := quantity mat - bs\<rparr>"
    have step: "AddBatches_loop bs mat res = AddBatches_loop bs ?m1 (res @ [?batch])"
      using True by (subst AddBatches_loop.simps) (simp add: Extract_def Push_def)
    have "quantity ?m1 \<le> bs * real (Suc n)"
      using Suc.prems(2) by (simp add: algebra_simps)
    from Suc.IH [OF Suc.prems(1) this, of "res @ [?batch]"] obtain k where
      k: "AddBatches_loop bs ?m1 (res @ [?batch]) =
           Some (Inr (?m1\<lparr>quantity := quantity ?m1 - real k * bs\<rparr>,
                      (res @ [?batch]) @ replicate k (?m1\<lparr>quantity := bs\<rparr>)))"
         "quantity ?m1 - real k * bs \<le> bs"
         "k = 0 \<or> 0 < quantity ?m1 - real k * bs"
      by blast
    have "AddBatches_loop bs mat res =
         Some (Inr (mat\<lparr>quantity := quantity mat - real (Suc k) * bs\<rparr>,
                    res @ replicate (Suc k) (mat\<lparr>quantity := bs\<rparr>)))"
      unfolding step k(1) by (simp add: algebra_simps)
    moreover have "quantity mat - real (Suc k) * bs \<le> bs"
      using k(2) by (simp add: algebra_simps)
    moreover have "0 < quantity mat - real (Suc k) * bs"
      using k(3) True by (auto simp: algebra_simps)
    ultimately show ?thesis by (intro exI [of _ "Suc k"]) simp
  qed
qed

lemma AddBatches_loop_returns:
  assumes "0 < bs"
  shows "\<exists>k. AddBatches_loop bs mat res =
         Some (Inr (mat\<lparr>quantity := quantity mat - real k * bs\<rparr>,
                    res @ replicate k (mat\<lparr>quantity := bs\<rparr>))) \<and>
       quantity mat - real k * bs \<le> bs \<and>
       (k = 0 \<or> 0 < quantity mat - real k * bs)"
proof -
  obtain n where "quantity mat / bs \<le> real n"
    using real_arch_simple by blast
  with assms have "quantity mat \<le> bs * real (Suc n)"
    by (simp add: pos_divide_le_eq algebra_simps add_increasing2)
  from AddBatches_loop_returns_aux [OF assms this] show ?thesis .
qed

lemma AddBatches_rest_returns:
  "0 < batch_size s \<Longrightarrow> \<exists>s'. AddBatches_rest eps_rsrc last_m mat res s = Some (Inr s')"
  using AddBatches_loop_returns [of "batch_size s" mat "Push last_m res"]
  by (auto simp: AddBatches_rest_def)

lemma AddBatches_returns:
  assumes "0 < batch_size s" "reserves s \<noteq> []"
  shows "\<exists>s'. AddBatches eps_rsrc mat s = Some (Inr s')"
  using assms AddBatches_rest_returns [OF assms(1)]
  by (auto simp: AddBatches_def PopBack_def Extract_def)

subsection \<open>Mass conservation\<close>

text \<open>
  Claim C1, as amended. A tick or a tock that returns leaves
  \<open>reserves.quantity() + core.quantity() + storage.quantity()\<close> unchanged, whatever the
  test \<^verbatim>\<open>BatchIn\<close> is. A tick returns unless it is the discharge tick of a core that
  holds fewer than \<open>n_load\<close> batches; with the test of the specification a tock always
  returns. A trade settlement that returns lowers the total by exactly the sum of the
  traded amounts. A delivery absorption that returns raises it by the delivered amount
  less a remainder of at most \<^verbatim>\<open>eps_rsrc\<close>: line 419 pushes what is left of the delivery
  only when it exceeds that threshold and drops it otherwise, so the increase is not
  always exactly the delivered amount. With a positive batch size, reserves that are not
  empty and a delivery, the absorption returns. (What happens to a delivery into empty
  reserves is the subject of claim C2.)
\<close>

theorem mass_conservation:
  "(HandleTick ctx tick s = Inr s' \<longrightarrow> total_quantity s' = total_quantity s) \<and>
   ((phase s = PROCESS \<and> tick = end_time s \<longrightarrow> nat (n_load s) \<le> length (core s)) \<longrightarrow>
      (\<exists>s''. HandleTick ctx tick s = Inr s'')) \<and>
   (HandleTock batch_in tick s = Inr s' \<longrightarrow> total_quantity s' = total_quantity s) \<and>
   (\<exists>s''. HandleTock BatchIn tick s = Inr s'') \<and>
   (GetMatlTrades trades responses s = Inr (responses', s') \<longrightarrow>
      total_quantity s' = total_quantity s - sum_list (map amt trades)) \<and>
   (0 \<le> eps_rsrc \<and> 0 \<le> sum_list (map (\<lambda>r. quantity (snd r)) deliveries) \<and>
    AcceptMatlTrades eps_rsrc deliveries s = Some (Inr s') \<longrightarrow>
      total_quantity s' \<le> total_quantity s + sum_list (map (\<lambda>r. quantity (snd r)) deliveries) \<and>
      total_quantity s + sum_list (map (\<lambda>r. quantity (snd r)) deliveries) - eps_rsrc
        \<le> total_quantity s') \<and>
   (0 < batch_size s \<and> reserves s \<noteq> [] \<and> deliveries \<noteq> [] \<longrightarrow>
      (\<exists>s''. AcceptMatlTrades eps_rsrc deliveries s = Some (Inr s'')))"
proof (intro conjI impI)
  show "\<exists>s''. HandleTock BatchIn tick s = Inr s''"
    using Refuel_BatchIn_returns [of s] by (cases "phase s") (simp_all add: HandleTock_def)
next
  assume "phase s = PROCESS \<and> tick = end_time s \<longrightarrow> nat (n_load s) \<le> length (core s)"
  then show "\<exists>s''. HandleTick ctx tick s = Inr s''"
    by (cases "phase s") (auto simp: HandleTick_def MoveBatchOut_loop_eq)
next
  assume "0 < batch_size s \<and> reserves s \<noteq> [] \<and> deliveries \<noteq> []"
  then show "\<exists>s''. AcceptMatlTrades eps_rsrc deliveries s = Some (Inr s'')"
    using AddBatches_returns [of s]
    by (cases deliveries) (simp_all add: AcceptMatlTrades_def)
next
  assume a: "0 \<le> eps_rsrc \<and> 0 \<le> sum_list (map (\<lambda>r. quantity (snd r)) deliveries) \<and>
    AcceptMatlTrades eps_rsrc deliveries s = Some (Inr s')"
  with AcceptMatlTrades_total [of eps_rsrc deliveries s s']
  show "total_quantity s' \<le> total_quantity s + sum_list (map (\<lambda>r. quantity (snd r)) deliveries)"
    and "total_quantity s + sum_list (map (\<lambda>r. quantity (snd r)) deliveries) - eps_rsrc
        \<le> total_quantity s'"
    by simp_all
qed (simp_all add: HandleTick_total HandleTock_total GetMatlTrades_total)

theorem mass_conservation_witness:
  "(nat (n_load (new_BatchReactor\<lparr>start_time := 0, process_time := 5, out_recipe := ''waste'',
         phase := PROCESS, core := [\<lparr>quantity = 10, composition = ''uo2''\<rparr>]\<rparr>)) \<le>
    length (core (new_BatchReactor\<lparr>start_time := 0, process_time := 5, out_recipe := ''waste'',
         phase := PROCESS, core := [\<lparr>quantity = 10, composition = ''uo2''\<rparr>]\<rparr>)) \<and>
    HandleTick \<lparr>time = 5\<rparr> 5
      (new_BatchReactor\<lparr>start_time := 0, process_time := 5, out_recipe := ''waste'',
         phase := PROCESS, core := [\<lparr>quantity = 10, composition = ''uo2''\<rparr>]\<rparr>) =
      Inr (new_BatchReactor\<lparr>start_time := 0, process_time := 5, out_recipe := ''waste'',
         phase := WAITING, storage := [\<lparr>quantity = 10, composition = ''waste''\<rparr>]\<rparr>) \<and>
    total_quantity (new_BatchReactor\<lparr>start_time := 0, process_time := 5, out_recipe := ''waste'',
         phase := WAITING, storage := [\<lparr>quantity = 10, composition = ''waste''\<rparr>]\<rparr>) =
    total_quantity (new_BatchReactor\<lparr>start_time := 0, process_time := 5, out_recipe := ''waste'',
         phase := PROCESS, core := [\<lparr>quantity = 10, composition = ''uo2''\<rparr>]\<rparr>)) \<and>
   (HandleTock BatchIn 0
      (new_BatchReactor\<lparr>batch_size := 10,
         reserves := [\<lparr>quantity = 10, composition = ''uo2''\<rparr>, \<lparr>quantity = 4, composition = ''uo2''\<rparr>]\<rparr>) =
      Inr (new_BatchReactor\<lparr>batch_size := 10,
         reserves := [\<lparr>quantity = 4, composition = ''uo2''\<rparr>],
         core := [\<lparr>quantity = 10, composition = ''uo2''\<rparr>]\<rparr>) \<and>
    total_quantity (new_BatchReactor\<lparr>batch_size := 10,
         reserves := [\<lparr>quantity = 4, composition = ''uo2''\<rparr>],
         core := [\<lparr>quantity = 10, composition = ''uo2''\<rparr>]\<rparr>) =
    total_quantity (new_BatchReactor\<lparr>batch_size := 10,
         reserves := [\<lparr>quantity = 10, composition = ''uo2''\<rparr>, \<lparr>quantity = 4, composition = ''uo2''\<rparr>]\<rparr>)) \<and>
   (GetMatlTrades [\<lparr>amt = 15\<rparr>] []
      (new_BatchReactor\<lparr>storage :=
         [\<lparr>quantity = 10, composition = ''waste''\<rparr>, \<lparr>quantity = 10, composition = ''waste''\<rparr>]\<rparr>) =
      Inr ([(\<lparr>amt = 15\<rparr>, \<lparr>quantity = 15, composition = ''waste''\<rparr>)],
           new_BatchReactor\<lparr>storage := [\<lparr>quantity = 5, composition = ''waste''\<rparr>]\<rparr>) \<and>
    total_quantity (new_BatchReactor\<lparr>storage := [\<lparr>quantity = 5, composition = ''waste''\<rparr>]\<rparr>) =
    total_quantity (new_BatchReactor\<lparr>storage :=
         [\<lparr>quantity = 10, composition = ''waste''\<rparr>, \<lparr>quantity = 10, composition = ''waste''\<rparr>]\<rparr>)
      - sum_list (map amt [\<lparr>amt = 15\<rparr>])) \<and>
   ((0::real) \<le> 1 / 1000000 \<and>
    0 \<le> sum_list (map (\<lambda>r. quantity (snd r))
           [(''trade'', \<lparr>quantity = 25, composition = ''uo2''\<rparr>)]) \<and>
    0 < batch_size (new_BatchReactor\<lparr>batch_size := 10,
         reserves := [\<lparr>quantity = 4, composition = ''uo2''\<rparr>]\<rparr>) \<and>
    reserves (new_BatchReactor\<lparr>batch_size := 10,
         reserves := [\<lparr>quantity = 4, composition = ''uo2''\<rparr>]\<rparr>) \<noteq> [] \<and>
    AcceptMatlTrades (1 / 1000000) [(''trade'', \<lparr>quantity = 25, composition = ''uo2''\<rparr>)]
      (new_BatchReactor\<lparr>batch_size := 10,
         reserves := [\<lparr>quantity = 4, composition = ''uo2''\<rparr>]\<rparr>) =
      Some (Inr (new_BatchReactor\<lparr>batch_size := 10,
         reserves := [\<lparr>quantity = 10, composition = ''uo2''\<rparr>,
                      \<lparr>quantity = 10, composition = ''uo2''\<rparr>,
                      \<lparr>quantity = 9, composition = ''uo2''\<rparr>]\<rparr>)) \<and>
    total_quantity (new_BatchReactor\<lparr>batch_size := 10,
         reserves := [\<lparr>quantity = 10, composition = ''uo2''\<rparr>,
                      \<lparr>quantity = 10, composition = ''uo2''\<rparr>,
                      \<lparr>quantity = 9, composition = ''uo2''\<rparr>]\<rparr>) \<le>
    total_quantity (new_BatchReactor\<lparr>batch_size := 10,
         reserves := [\<lparr>quantity = 4, composition = ''uo2''\<rparr>]\<rparr>) + 25)"
proof -
  let ?c = "\<lparr>time = 5\<rparr>"
  let ?sP = "new_BatchReactor\<lparr>start_time := 0, process_time := 5, out_recipe := ''waste'',
         phase := PROCESS, core := [\<lparr>quantity = 10, composition = ''uo2''\<rparr>]\<rparr>"
  let ?sP' = "new_BatchReactor\<lparr>start_time := 0, process_time := 5, out_recipe := ''waste'',
         phase := WAITING, storage := [\<lparr>quantity = 10, composition = ''waste''\<rparr>]\<rparr>"
  let ?sI = "new_BatchReactor\<lparr>batch_size := 10,
         reserves := [\<lparr>quantity = 10, composition = ''uo2''\<rparr>, \<lparr>quantity = 4, composition = ''uo2''\<rparr>]\<rparr>"
  let ?sI' = "new_BatchReactor\<lparr>batch_size := 10,
         reserves := [\<lparr>quantity = 4, composition = ''uo2''\<rparr>],
         core := [\<lparr>quantity = 10, composition = ''uo2''\<rparr>]\<rparr>"
  let ?sS = "new_BatchReactor\<lparr>storage :=
         [\<lparr>quantity = 10, composition = ''waste''\<rparr>, \<lparr>quantity = 10, composition = ''waste''\<rparr>]\<rparr>"
  let ?sS' = "new_BatchReactor\<lparr>storage := [\<lparr>quantity = 5, composition = ''waste''\<rparr>]\<rparr>"
  let ?resp = "[(\<lparr>amt = 15\<rparr>, \<lparr>quantity = 15, composition = ''waste''\<rparr>)]"
  let ?dl = "[(''trade'', \<lparr>quantity = 25, composition = ''uo2''\<rparr>)]"
  let ?sD = "new_BatchReactor\<lparr>batch_size := 10,
         reserves := [\<lparr>quantity = 4, composition = ''uo2''\<rparr>]\<rparr>"
  let ?sD' = "new_BatchReactor\<lparr>batch_size := 10,
         reserves := [\<lparr>quantity = 10, composition = ''uo2''\<rparr>,
                      \<lparr>quantity = 10, composition = ''uo2''\<rparr>,
                      \<lparr>quantity = 9, composition = ''uo2''\<rparr>]\<rparr>"
  have a: "HandleTick ?c 5 ?sP = Inr ?sP'"
    by (simp add: HandleTick_def end_time_def MoveBatchOut_loop_eq set_phase_def
        new_BatchReactor_def)
  have b: "HandleTock BatchIn 0 ?sI = Inr ?sI'"
    by (simp add: HandleTock_def Refuel.simps MoveBatchIn_def Pop_def Push_def BatchIn_def
        n_core_def buf_count_def new_BatchReactor_def)
  have c: "GetMatlTrades [\<lparr>amt = 15\<rparr>] [] ?sS = Inr (?resp, ?sS')"
    by (simp add: PopQty_def buf_quantity_def Extract_def Absorb_def new_BatchReactor_def)
  have d: "(0::real) \<le> 1 / 1000000 \<and> 0 \<le> sum_list (map (\<lambda>r. quantity (snd r)) ?dl) \<and>
           AcceptMatlTrades (1 / 1000000) ?dl ?sD = Some (Inr ?sD')"
    by (simp add: AcceptMatlTrades_def AddBatches_def AddBatches_rest_def PopBack_def
        AddBatches_loop.simps Push_def Extract_def Absorb_def new_BatchReactor_def)
  have e: "0 < batch_size ?sD \<and> reserves ?sD \<noteq> []" by simp
  have f: "nat (n_load ?sP) \<le> length (core ?sP)" by (simp add: new_BatchReactor_def)
  from f mass_conservation [where ctx = ?c and tick = 5 and s = ?sP]
  have f': "\<exists>s''. HandleTick ?c 5 ?sP = Inr s''" by blast
  from a mass_conservation [where ctx = ?c and tick = 5 and s = ?sP and s' = ?sP']
  have a': "total_quantity ?sP' = total_quantity ?sP" by blast
  from b mass_conservation [where batch_in = BatchIn and tick = 0 and s = ?sI and s' = ?sI']
  have b': "total_quantity ?sI' = total_quantity ?sI" by blast
  from c mass_conservation [where trades = "[\<lparr>amt = 15\<rparr>]" and responses = "[]"
      and s = ?sS and s' = ?sS' and responses' = ?resp]
  have c': "total_quantity ?sS' = total_quantity ?sS - sum_list (map amt [\<lparr>amt = 15\<rparr>])" by blast
  from d mass_conservation [where eps_rsrc = "1 / 1000000" and deliveries = ?dl
      and s = ?sD and s' = ?sD']
  have d': "total_quantity ?sD' \<le> total_quantity ?sD + sum_list (map (\<lambda>r. quantity (snd r)) ?dl)"
    by blast
  then have d'': "total_quantity ?sD' \<le> total_quantity ?sD + 25" by simp
  from a a' b b' c c' d d'' e f f' show ?thesis by blast
qed

text \<open>
  With \<^verbatim>\<open>eps_rsrc\<close> at \<open>1 / 1000000\<close>, a delivery of \<open>1 / 2000000\<close> to reserves that hold one full
  batch of 10 is dropped whole: the call returns, the facility is unchanged and still
  holds 10, not 10 plus the delivered amount.
\<close>

theorem mass_conservation_deliveries_counterexample:
  "AcceptMatlTrades (1 / 1000000) [(''trade'', \<lparr>quantity = 1 / 2000000, composition = ''uo2''\<rparr>)]
     (new_BatchReactor\<lparr>batch_size := 10, reserves := [\<lparr>quantity = 10, composition = ''uo2''\<rparr>]\<rparr>) =
     Some (Inr (new_BatchReactor\<lparr>batch_size := 10,
                  reserves := [\<lparr>quantity = 10, composition = ''uo2''\<rparr>]\<rparr>)) \<and>
   total_quantity (new_BatchReactor\<lparr>batch_size := 10,
       reserves := [\<lparr>quantity = 10, composition = ''uo2''\<rparr>]\<rparr>) \<noteq>
   total_quantity (new_BatchReactor\<lparr>batch_size := 10,
       reserves := [\<lparr>quantity = 10, composition = ''uo2''\<rparr>]\<rparr>) +
   sum_list (map (\<lambda>r. quantity (snd r))
     [(''trade'', \<lparr>quantity = 1 / 2000000, composition = ''uo2''\<rparr>)])"
  by (simp add: AcceptMatlTrades_def AddBatches_def AddBatches_rest_def PopBack_def
      AddBatches_loop.simps Push_def new_BatchReactor_def total_quantity_def buf_quantity_def)

subsection \<open>Trade settlement\<close>

text \<open>
  Claim C6, as amended. Settling a trade of amount \<open>qty\<close> fails with
  \<open>InsufficientQuantityError\<close> exactly when \<open>qty\<close> exceeds \<open>storage.quantity()\<close>. When
  \<open>0 < qty \<le> storage.quantity()\<close> it succeeds: the manifest popped from the storage is
  not empty, the storage loses exactly \<open>qty\<close>, the manifest is merged into its first
  element by repeated \<open>absorb\<close>, the merged unit has quantity \<open>qty\<close> and is appended to
  the responses, paired with the trade, before the next trade is settled. The bound
  \<open>0 < qty\<close> is needed: for an amount that is not positive nothing is popped, and
  \<^verbatim>\<open>manifest[0]\<close> reads an empty manifest.
\<close>

theorem GetMatlTrades_settles:
  "((GetMatlTrades [tr] responses s = Inl InsufficientQuantityError) =
      (buf_quantity (storage s) < amt tr)) \<and>
   (buf_quantity (storage s) < amt tr \<longrightarrow>
      GetMatlTrades (tr # trades) responses s = Inl InsufficientQuantityError) \<and>
   (0 < amt tr \<and> amt tr \<le> buf_quantity (storage s) \<longrightarrow>
      (\<exists>first rest st.
         PopQty (amt tr) (storage s) = Inr (first # rest, st) \<and>
         buf_quantity st = buf_quantity (storage s) - amt tr \<and>
         quantity (foldl Absorb first rest) = amt tr \<and>
         GetMatlTrades (tr # trades) responses s =
           GetMatlTrades trades (responses @ [(tr, foldl Absorb first rest)])
             (s\<lparr>storage := st\<rparr>)))"
proof (intro conjI impI)
  show "buf_quantity (storage s) < amt tr \<Longrightarrow>
      GetMatlTrades (tr # trades) responses s = Inl InsufficientQuantityError"
    by (simp add: PopQty_def)
next
  assume a: "0 < amt tr \<and> amt tr \<le> buf_quantity (storage s)"
  with PopQty_loop_ok [of "amt tr" "storage s"] obtain manifest st where
    l: "PopQty_loop (amt tr) (storage s) = Inr (manifest, st)"
    and q: "buf_quantity manifest = amt tr" "buf_quantity st = buf_quantity (storage s) - amt tr"
    and ne: "manifest \<noteq> []"
    by auto
  from ne obtain first rest where m: "manifest = first # rest" by (cases manifest) auto
  from a l m have p: "PopQty (amt tr) (storage s) = Inr (first # rest, st)"
    by (simp add: PopQty_def)
  moreover from q(1) m have "quantity (foldl Absorb first rest) = amt tr"
    by (simp add: quantity_foldl_Absorb buf_quantity_simps) (simp add: buf_quantity_def)
  moreover from p have "GetMatlTrades (tr # trades) responses s =
           GetMatlTrades trades (responses @ [(tr, foldl Absorb first rest)])
             (s\<lparr>storage := st\<rparr>)"
    by simp
  ultimately show "\<exists>first rest st.
         PopQty (amt tr) (storage s) = Inr (first # rest, st) \<and>
         buf_quantity st = buf_quantity (storage s) - amt tr \<and>
         quantity (foldl Absorb first rest) = amt tr \<and>
         GetMatlTrades (tr # trades) responses s =
           GetMatlTrades trades (responses @ [(tr, foldl Absorb first rest)])
             (s\<lparr>storage := st\<rparr>)"
    using q(2) by blast
next
  show "(GetMatlTrades [tr] responses s = Inl InsufficientQuantityError) =
      (buf_quantity (storage s) < amt tr)"
  proof (cases "buf_quantity (storage s) < amt tr")
    case True
    then show ?thesis by (simp add: PopQty_def)
  next
    case False
    show ?thesis
    proof (cases "0 < amt tr")
      case True
      with False PopQty_loop_ok [of "amt tr" "storage s"] obtain manifest st where
        "PopQty_loop (amt tr) (storage s) = Inr (manifest, st)" "manifest \<noteq> []"
        by auto
      with False show ?thesis
        by (cases manifest) (simp_all add: PopQty_def)
    next
      case np: False
      then have "PopQty_loop (amt tr) (storage s) = Inr ([], storage s)"
        by (simp add: PopQty_loop_nonpos)
      with False show ?thesis by (simp add: PopQty_def)
    qed
  qed
qed

theorem GetMatlTrades_settles_witness:
  "0 < amt \<lparr>amt = 15\<rparr> \<and>
   amt \<lparr>amt = 15\<rparr> \<le> buf_quantity (storage (new_BatchReactor\<lparr>storage :=
       [\<lparr>quantity = 10, composition = ''waste''\<rparr>, \<lparr>quantity = 10, composition = ''waste''\<rparr>]\<rparr>)) \<and>
   GetMatlTrades [\<lparr>amt = 15\<rparr>] []
     (new_BatchReactor\<lparr>storage :=
       [\<lparr>quantity = 10, composition = ''waste''\<rparr>, \<lparr>quantity = 10, composition = ''waste''\<rparr>]\<rparr>) =
     Inr ([(\<lparr>amt = 15\<rparr>, \<lparr>quantity = 15, composition = ''waste''\<rparr>)],
          new_BatchReactor\<lparr>storage := [\<lparr>quantity = 5, composition = ''waste''\<rparr>]\<rparr>)"
proof -
  let ?s = "new_BatchReactor\<lparr>storage :=
       [\<lparr>quantity = 10, composition = ''waste''\<rparr>, \<lparr>quantity = 10, composition = ''waste''\<rparr>]\<rparr>"
  let ?tr = "\<lparr>amt = 15\<rparr>"
  have h: "0 < amt ?tr \<and> amt ?tr \<le> buf_quantity (storage ?s)"
    by (simp add: buf_quantity_def)
  from GetMatlTrades_settles [of ?tr "[]" ?s "[]"] h obtain first rest st where
    p: "PopQty (amt ?tr) (storage ?s) = Inr (first # rest, st)"
    and g: "GetMatlTrades [?tr] [] ?s =
           GetMatlTrades [] ([] @ [(?tr, foldl Absorb first rest)]) (?s\<lparr>storage := st\<rparr>)"
    by blast
  from p have "first = \<lparr>quantity = 10, composition = ''waste''\<rparr>"
    "rest = [\<lparr>quantity = 5, composition = ''waste''\<rparr>]"
    "st = [\<lparr>quantity = 5, composition = ''waste''\<rparr>]"
    by (auto simp: PopQty_def buf_quantity_def Extract_def)
  with g have "GetMatlTrades [?tr] [] ?s =
     Inr ([(?tr, \<lparr>quantity = 15, composition = ''waste''\<rparr>)],
          new_BatchReactor\<lparr>storage := [\<lparr>quantity = 5, composition = ''waste''\<rparr>]\<rparr>)"
    by (simp add: Absorb_def)
  with h show ?thesis by blast
qed

text \<open>
  A trade of amount 0 against a storage of 10: the amount does not exceed the storage,
  and the settlement fails all the same.
\<close>

theorem GetMatlTrades_zero_counterexample:
  "amt \<lparr>amt = 0\<rparr> \<le> buf_quantity (storage (new_BatchReactor\<lparr>storage :=
       [\<lparr>quantity = 10, composition = ''waste''\<rparr>]\<rparr>)) \<and>
   GetMatlTrades [\<lparr>amt = 0\<rparr>] []
     (new_BatchReactor\<lparr>storage := [\<lparr>quantity = 10, composition = ''waste''\<rparr>]\<rparr>) =
     Inl OutOfRange"
  by (simp add: PopQty_def buf_quantity_def)

subsection \<open>Reading the configuration\<close>




















subsection \<open>Batch quantization\<close>

text \<open>
  On reserves that are not empty and quantized, with a positive batch size,
  \<^verbatim>\<open>AddBatches_\<close> returns and leaves the reserves quantized, hence with at most one
  partial batch: 25 units added to one full batch of 10 give 10, 10, 10, 5. The weaker
  shape of the claim alone is not kept when the partial batch is not the last one, a
  state that no sequence of deliveries and refuels produces.
\<close>

lemma quantized_at_most_one_partial:
  "quantized bs b \<Longrightarrow> at_most_one_partial bs b"
proof (cases b rule: rev_cases)
  case Nil
  then show ?thesis by (simp add: at_most_one_partial_def)
next
  case (snoc xs x)
  assume "quantized bs b"
  with snoc have "list_all (\<lambda>m. quantity m = bs) xs" "list_all (\<lambda>m. quantity m \<le> bs) b"
    by (simp_all add: quantized_def)
  moreover from this(1) have "filter (\<lambda>m. quantity m < bs) xs = []"
    by (induction xs) simp_all
  ultimately show ?thesis using snoc by (simp add: at_most_one_partial_def)
qed

lemma quantized_snoc_full:
  "list_all (\<lambda>m. quantity m = bs) xs \<Longrightarrow> quantity x \<le> bs \<Longrightarrow> quantized bs (xs @ [x])"
  by (induction xs) (simp_all add: quantized_def)

lemma AddBatches_rest_quantized:
  assumes bs: "0 < batch_size s" and res: "list_all (\<lambda>m. quantity m = batch_size s) res"
    and full: "quantity last_m = batch_size s"
  shows "\<exists>s'. AddBatches_rest eps_rsrc last_m mat res s = Some (Inr s') \<and>
              quantized (batch_size s) (reserves s')"
proof -
  let ?bs = "batch_size s"
  from AddBatches_loop_returns [OF bs, of mat "Push last_m res"] obtain k where
    l: "AddBatches_loop ?bs mat (Push last_m res) =
         Some (Inr (mat\<lparr>quantity := quantity mat - real k * ?bs\<rparr>,
                    Push last_m res @ replicate k (mat\<lparr>quantity := ?bs\<rparr>)))"
    and r: "quantity mat - real k * ?bs \<le> ?bs"
    by blast
  let ?all = "Push last_m res @ replicate k (mat\<lparr>quantity := ?bs\<rparr>)"
  have a: "list_all (\<lambda>m. quantity m = ?bs) ?all"
    using res full by (auto simp: Push_def list_all_iff)
  then have q1: "quantized ?bs ?all"
    by (auto simp: quantized_def list_all_iff dest: in_set_butlastD)
  have q2: "quantized ?bs (?all @ [mat\<lparr>quantity := quantity mat - real k * ?bs\<rparr>])"
    using a r by (intro quantized_snoc_full) simp_all
  from l q1 q2 show ?thesis
    by (simp add: AddBatches_rest_def Push_def)
qed

lemma AddBatches_keeps_quantized:
  assumes bs: "0 < batch_size s" and ne: "reserves s \<noteq> []"
    and q: "quantized (batch_size s) (reserves s)"
  shows "\<exists>s'. AddBatches eps_rsrc mat s = Some (Inr s') \<and>
              quantized (batch_size s) (reserves s') \<and>
              at_most_one_partial (batch_size s) (reserves s')"
proof -
  let ?bs = "batch_size s"
  let ?l = "last (reserves s)" and ?res = "butlast (reserves s)"
  from ne have pb: "PopBack (reserves s) = Inr (?l, ?res)" by (simp add: PopBack_def)
  from q have res: "list_all (\<lambda>m. quantity m = ?bs) ?res"
    by (simp add: quantized_def)
  from q ne have le: "quantity ?l \<le> ?bs"
    by (simp add: quantized_def list_all_iff)
  have "\<exists>s'. AddBatches eps_rsrc mat s = Some (Inr s') \<and> quantized ?bs (reserves s')"
  proof (cases "quantity ?l < ?bs")
    case False
    with le have "quantity ?l = ?bs" by simp
    from AddBatches_rest_quantized [OF bs res this, of eps_rsrc mat] False pb
    show ?thesis by (simp add: AddBatches_def)
  next
    case small: True
    show ?thesis
    proof (cases "quantity ?l + quantity mat \<le> ?bs")
      case True
      with small pb res show ?thesis
        by (simp add: AddBatches_def Push_def Absorb_def quantized_snoc_full)
    next
      case False
      let ?bit = "mat\<lparr>quantity := ?bs - quantity ?l\<rparr>"
      let ?mat1 = "mat\<lparr>quantity := quantity mat - (?bs - quantity ?l)\<rparr>"
      have "quantity (Absorb ?l ?bit) = ?bs" by (simp add: Absorb_def)
      from AddBatches_rest_quantized [OF bs res this, of eps_rsrc ?mat1] False small pb
      show ?thesis by (simp add: AddBatches_def Extract_def)
    qed
  qed
  then show ?thesis using quantized_at_most_one_partial by blast
qed

lemma at_most_one_partial_not_kept:
  "at_most_one_partial 10 [\<lparr>quantity = 5, composition = ''uo2''\<rparr>, \<lparr>quantity = 10, composition = ''uo2''\<rparr>] \<and>
   AddBatches (1 / 1000000) \<lparr>quantity = 25, composition = ''uo2''\<rparr>
     (new_BatchReactor\<lparr>batch_size := 10,
        reserves := [\<lparr>quantity = 5, composition = ''uo2''\<rparr>, \<lparr>quantity = 10, composition = ''uo2''\<rparr>]\<rparr>) =
     Some (Inr (new_BatchReactor\<lparr>batch_size := 10,
        reserves := [\<lparr>quantity = 5, composition = ''uo2''\<rparr>, \<lparr>quantity = 10, composition = ''uo2''\<rparr>,
                     \<lparr>quantity = 10, composition = ''uo2''\<rparr>, \<lparr>quantity = 10, composition = ''uo2''\<rparr>,
                     \<lparr>quantity = 5, composition = ''uo2''\<rparr>]\<rparr>)) \<and>
   \<not> at_most_one_partial 10
       [\<lparr>quantity = 5, composition = ''uo2''\<rparr>, \<lparr>quantity = 10, composition = ''uo2''\<rparr>,
        \<lparr>quantity = 10, composition = ''uo2''\<rparr>, \<lparr>quantity = 10, composition = ''uo2''\<rparr>,
        \<lparr>quantity = 5, composition = ''uo2''\<rparr>]"
  by (simp add: at_most_one_partial_def AddBatches_def AddBatches_rest_def PopBack_def
      AddBatches_loop.simps Push_def Extract_def new_BatchReactor_def)

lemma AddBatches_scenario_nonempty:
  "AddBatches (1 / 1000000) \<lparr>quantity = 25, composition = ''uo2''\<rparr>
     (new_BatchReactor\<lparr>batch_size := 10, reserves := [\<lparr>quantity = 10, composition = ''uo2''\<rparr>]\<rparr>) =
     Some (Inr (new_BatchReactor\<lparr>batch_size := 10,
        reserves := [\<lparr>quantity = 10, composition = ''uo2''\<rparr>, \<lparr>quantity = 10, composition = ''uo2''\<rparr>,
                     \<lparr>quantity = 10, composition = ''uo2''\<rparr>, \<lparr>quantity = 5, composition = ''uo2''\<rparr>]\<rparr>))"
  by (simp add: AddBatches_def AddBatches_rest_def PopBack_def
      AddBatches_loop.simps Push_def Extract_def new_BatchReactor_def)

text \<open>
  Claim C2. After every delivery-absorption call the reserves hold at most one batch
  smaller than \<open>batch_size\<close>, also when the delivery arrives to empty reserves: 25 units
  into empty reserves with \<open>batch_size = 10\<close> should leave the batches 10, 10, 5.
  The code does not get that far: \<^verbatim>\<open>AddBatches_\<close> starts with \<^verbatim>\<open>reserves_.PopBack()\<close>,
  which fails on the empty buffer, so the delivery of the scenario is rejected with
  \<open>EmptyBufferError\<close> and nothing is stored. The reserves of a new facility are empty
  and \<^verbatim>\<open>AddBatches_\<close> is the only function that adds to them.
\<close>

theorem AddBatches_empty_reserves_fails:
  "AddBatches (1 / 1000000) \<lparr>quantity = 25, composition = ''fresh''\<rparr>
     (new_BatchReactor\<lparr>batch_size := 10\<rparr>) = Some (Inl EmptyBufferError)"
  by (simp add: AddBatches_def PopBack_def new_BatchReactor_def)

end
